theory Spec2Isabelle
  imports Main "HOL-Library.Sublist"
begin

section \<open>The robot order task of \<^verbatim>\<open>tasks.py\<close>\<close>

text \<open>
  The script is a sequence of calls into libraries (requests, pandas, the browser driver,
  the PDF and archive libraries, \<^verbatim>\<open>os\<close> and \<^verbatim>\<open>shutil\<close>). The model threads a
  world through the functions of the script. The world holds the calls made so far, in
  order, the file system, the archives written and the log. What the outside answers (the
  HTTP response, what the page shows, which call raises) is given by an environment whose
  answers may depend on all calls made before.
\<close>

subsection \<open>Values, errors, calls\<close>

text \<open>A cell of a row of the order table: pandas reads a column as integers or as text.\<close>

datatype cell = CInt int | CStr string

type_synonym row = "(string \<times> cell) list"

text \<open>
  The first parameter of \<^verbatim>\<open>click_order_button_with_retry\<close> is annotated as a row, and
  Python does not check it: the function also receives an integer there.
\<close>

datatype pyval = PRow row | PInt int

datatype error =
    RecursionError
  | HTTPError nat
  | KeyError string
  | ValueError string
  | OSError string
  | LibraryError string

datatype event =
    HttpGet string
  | Makedirs string
  | Goto string
  | Click string
  | SelectOption string string
  | Check string
  | Fill string cell
  | IsVisible string
  | TextContent string
  | Screenshot string string
  | InnerHtml string
  | ClosePage
  | HtmlToPdf string string
  | AddWatermark string string string
  | ArchiveFolderWithZip string string bool string
  | PathExists string
  | Rmtree string
  | Enter_click_order_button_with_retry pyval int

datatype log_msg =
    ArchivedMsg
  | FailedClickMsg pyval
  | ReceiptSavedMsg "string option"
  | CleanedUpMsg
  | CleanupErrorMsg error

datatype log_entry = LogInfo log_msg | LogError log_msg

record world =
  w_trace :: "event list"
  w_dirs :: "string list"
  w_files :: "string list"
  w_archives :: "(string \<times> string list) list"
  w_log :: "log_entry list"

record env =
  e_raises :: "event list \<Rightarrow> event \<Rightarrow> error option"
  e_http_response :: "event list \<Rightarrow> nat \<times> string"
  e_read_csv :: "string \<Rightarrow> error + row list"
  e_is_visible :: "event list \<Rightarrow> string \<Rightarrow> bool"
  e_text_content :: "event list \<Rightarrow> string \<Rightarrow> string option"
  e_inner_html :: "event list \<Rightarrow> string \<Rightarrow> string"
  e_recursion_limit :: nat

subsection \<open>Sequencing with exceptions\<close>

type_synonym 'a prog = "world \<Rightarrow> (error + 'a) \<times> world"

definition ret :: "'a \<Rightarrow> 'a prog" where
  "ret x s = (Inr x, s)"

definition raise :: "error \<Rightarrow> 'a prog" where
  "raise e s = (Inl e, s)"

definition lift :: "error + 'a \<Rightarrow> 'a prog" where
  "lift r s = (r, s)"

definition and_then :: "'a prog \<Rightarrow> ('a \<Rightarrow> 'b prog) \<Rightarrow> 'b prog" where
  "and_then m f s = (case m s of (Inl e, s') \<Rightarrow> (Inl e, s') | (Inr x, s') \<Rightarrow> f x s')"

text \<open>
  A library call is recorded when it is made. The environment decides, from the calls made
  before, whether it raises.
\<close>

definition call :: "env \<Rightarrow> event \<Rightarrow> unit prog" where
  "call en ev s =
     (let s' = s\<lparr>w_trace := w_trace s @ [ev]\<rparr>
      in case e_raises en (w_trace s) ev of
           Some e \<Rightarrow> (Inl e, s')
         | None \<Rightarrow> (Inr (), s'))"

definition logging_info :: "log_msg \<Rightarrow> unit prog" where
  "logging_info m s = (Inr (), s\<lparr>w_log := w_log s @ [LogInfo m]\<rparr>)"

definition logging_error :: "log_msg \<Rightarrow> unit prog" where
  "logging_error m s = (Inr (), s\<lparr>w_log := w_log s @ [LogError m]\<rparr>)"

subsection \<open>Python's \<^verbatim>\<open>str\<close> and f-strings\<close>

fun show_nat :: "nat \<Rightarrow> string" where
  "show_nat n =
     (if n < 10 then [''0123456789'' ! n]
      else show_nat (n div 10) @ [''0123456789'' ! (n mod 10)])"

declare show_nat.simps [simp del]

definition show_int :: "int \<Rightarrow> string" where
  "show_int i = (if i < 0 then ''-'' @ show_nat (nat (- i)) else show_nat (nat i))"

definition py_str :: "cell \<Rightarrow> string" where
  "py_str c = (case c of CInt i \<Rightarrow> show_int i | CStr s \<Rightarrow> s)"

text \<open>\<^verbatim>\<open>page.text_content\<close> returns an optional string; an f-string prints \<^verbatim>\<open>None\<close> as text.\<close>

definition py_format :: "string option \<Rightarrow> string" where
  "py_format v = (case v of None \<Rightarrow> ''None'' | Some s \<Rightarrow> s)"

definition row_get :: "row \<Rightarrow> string \<Rightarrow> error + cell" where
  "row_get r k = (case map_of r k of None \<Rightarrow> Inl (KeyError k) | Some v \<Rightarrow> Inr v)"

subsection \<open>Constants and selectors of the script\<close>

definition ORDER_URL :: string where
  "ORDER_URL = ''https://robotsparebinindustries.com/#/robot-order''"

definition CSV_URL :: string where
  "CSV_URL = ''https://robotsparebinindustries.com/orders.csv''"

definition MAX_RETRIES :: int where
  "MAX_RETRIES = 3"

definition order_button :: string where
  "order_button = ''//button[@id='order']''"

definition danger_alert :: string where
  "danger_alert = ''//div[@class='alert alert-danger']''"

definition success_badge :: string where
  "success_badge = ''//p[@class='badge badge-success']''"

definition head_select :: string where
  "head_select = ''//select[@id='head']''"

definition body_radio :: "string \<Rightarrow> string" where
  "body_radio b = ''//input[@id='id-body-'' @ b @ [CHR 0x27] @ '']''"

definition legs_input :: string where
  "legs_input = ''//div[contains(label, 'Legs')]//input''"

definition address_input :: string where
  "address_input = ''//input[@id='address']''"

definition modal_button :: string where
  "modal_button = ''//button[@class='btn btn-dark']''"

definition robot_preview :: string where
  "robot_preview = ''//div[@id='robot-preview-image']''"

definition receipt_div :: string where
  "receipt_div = ''//div[@id='receipt']''"

subsection \<open>The file system\<close>

definition is_under :: "string \<Rightarrow> string \<Rightarrow> bool" where
  "is_under d p = prefix (d @ ''/'') p"

definition basename :: "string \<Rightarrow> string" where
  "basename p = rev (takeWhile (\<lambda>c. c \<noteq> CHR ''/'') (rev p))"

text \<open>The directories \<^verbatim>\<open>os.makedirs\<close> creates for a path: each part of it, and the path.\<close>

definition ancestors :: "string \<Rightarrow> string list" where
  "ancestors p = map (\<lambda>i. take i p) (filter (\<lambda>i. 0 < i \<and> p ! i = CHR ''/'') [0..<length p]) @ [p]"

definition write_file :: "string \<Rightarrow> world \<Rightarrow> world" where
  "write_file p s = s\<lparr>w_files := List.insert p (w_files s)\<rparr>"

text \<open>\<^verbatim>\<open>os.makedirs(path, exist_ok=True)\<close>: an existing directory is accepted, a regular file
  in the way raises.\<close>

definition makedirs :: "env \<Rightarrow> string \<Rightarrow> unit prog" where
  "makedirs en p =
     and_then (call en (Makedirs p)) (\<lambda>_ s.
       if \<exists>a \<in> set (ancestors p). a \<in> set (w_files s)
       then (Inl (OSError ''FileExistsError''), s)
       else (Inr (), s\<lparr>w_dirs := foldr List.insert (ancestors p) (w_dirs s)\<rparr>))"

definition path_exists :: "string \<Rightarrow> bool prog" where
  "path_exists p s =
     (Inr (p \<in> set (w_dirs s) \<or> p \<in> set (w_files s)), s\<lparr>w_trace := w_trace s @ [PathExists p]\<rparr>)"

text \<open>
  \<^verbatim>\<open>shutil.rmtree\<close>: removes the directory and all below it. When it raises, the model
  leaves the tree whole (in CPython a part of it may already be gone; the directory itself
  is still there).
\<close>

definition rmtree :: "env \<Rightarrow> string \<Rightarrow> unit prog" where
  "rmtree en p =
     and_then (call en (Rmtree p)) (\<lambda>_ s.
       if p \<in> set (w_files s) then (Inl (OSError ''NotADirectoryError''), s)
       else if p \<notin> set (w_dirs s) then (Inl (OSError ''FileNotFoundError''), s)
       else (Inr (), s\<lparr>w_dirs := filter (\<lambda>d. d \<noteq> p \<and> \<not> is_under p d) (w_dirs s),
                        w_files := filter (\<lambda>f. \<not> is_under p f) (w_files s)\<rparr>))"

subsection \<open>The libraries\<close>

text \<open>A call whose answer the environment gives, from the calls made before it.\<close>

definition ask :: "env \<Rightarrow> event \<Rightarrow> (event list \<Rightarrow> 'a) \<Rightarrow> 'a prog" where
  "ask en ev f s =
     (case call en ev s of
        (Inl e, s') \<Rightarrow> (Inl e, s')
      | (Inr _, s') \<Rightarrow> (Inr (f (w_trace s)), s'))"

definition requests_get :: "env \<Rightarrow> string \<Rightarrow> (nat \<times> string) prog" where
  "requests_get en url = ask en (HttpGet url) (e_http_response en)"

text \<open>\<^verbatim>\<open>Response.raise_for_status\<close> of requests raises on a status from 400 to 599.\<close>

definition raise_for_status :: "nat \<Rightarrow> unit prog" where
  "raise_for_status status =
     (if 400 \<le> status \<and> status < 600 then raise (HTTPError status) else ret ())"

definition browser_goto :: "env \<Rightarrow> string \<Rightarrow> unit prog" where
  "browser_goto en url = call en (Goto url)"

definition page_click :: "env \<Rightarrow> string \<Rightarrow> unit prog" where
  "page_click en sel = call en (Click sel)"

definition page_select_option :: "env \<Rightarrow> string \<Rightarrow> string \<Rightarrow> unit prog" where
  "page_select_option en sel v = call en (SelectOption sel v)"

definition page_check :: "env \<Rightarrow> string \<Rightarrow> unit prog" where
  "page_check en sel = call en (Check sel)"

definition page_fill :: "env \<Rightarrow> string \<Rightarrow> cell \<Rightarrow> unit prog" where
  "page_fill en sel v = call en (Fill sel v)"

definition page_text_content :: "env \<Rightarrow> string \<Rightarrow> string option prog" where
  "page_text_content en sel = ask en (TextContent sel) (\<lambda>h. e_text_content en h sel)"

definition page_close :: "env \<Rightarrow> unit prog" where
  "page_close en = call en ClosePage"

definition locator_is_visible :: "env \<Rightarrow> string \<Rightarrow> bool prog" where
  "locator_is_visible en sel = ask en (IsVisible sel) (\<lambda>h. e_is_visible en h sel)"

definition locator_inner_html :: "env \<Rightarrow> string \<Rightarrow> string prog" where
  "locator_inner_html en sel = ask en (InnerHtml sel) (\<lambda>h. e_inner_html en h sel)"

definition locator_screenshot :: "env \<Rightarrow> string \<Rightarrow> string \<Rightarrow> unit prog" where
  "locator_screenshot en sel path =
     and_then (call en (Screenshot sel path)) (\<lambda>_ s. (Inr (), write_file path s))"

definition pdf_html_to_pdf :: "env \<Rightarrow> string \<Rightarrow> string \<Rightarrow> unit prog" where
  "pdf_html_to_pdf en html path =
     and_then (call en (HtmlToPdf html path)) (\<lambda>_ s. (Inr (), write_file path s))"

definition pdf_add_watermark_image_to_pdf :: "env \<Rightarrow> string \<Rightarrow> string \<Rightarrow> string \<Rightarrow> unit prog" where
  "pdf_add_watermark_image_to_pdf en image_path source_path output_path =
     and_then (call en (AddWatermark image_path source_path output_path))
       (\<lambda>_ s. (Inr (), write_file output_path s))"

text \<open>
  \<^verbatim>\<open>fnmatch\<close> on a file name, for patterns of literal characters, \<^verbatim>\<open>*\<close> and \<^verbatim>\<open>?\<close>
  (the script's pattern has no bracket class), on a system whose file names are case
  sensitive.
\<close>

fun glob :: "string \<Rightarrow> string \<Rightarrow> bool" where
  "glob [] [] = True"
| "glob [] (c # cs) = False"
| "glob (p # ps) [] = (p = CHR ''*'' \<and> glob ps [])"
| "glob (p # ps) (c # cs) =
     (if p = CHR ''*'' then glob ps (c # cs) \<or> glob (p # ps) cs
      else if p = CHR ''?'' then glob ps cs
      else p = c \<and> glob ps cs)"

definition fnmatch :: "string \<Rightarrow> string \<Rightarrow> bool" where
  "fnmatch name pat = glob pat name"

text \<open>
  \<^verbatim>\<open>Archive.archive_folder_with_zip\<close> of RPA.Archive: walks the folder (below it too when
  recursive), keeps the files whose name matches the include pattern, raises when none is
  left, and writes the archive with these members.
\<close>

definition list_files_in_directory :: "string \<Rightarrow> bool \<Rightarrow> string \<Rightarrow> string list \<Rightarrow> string list" where
  "list_files_in_directory folder recursive include fs =
     filter (\<lambda>p. is_under folder p
                \<and> (recursive \<or> CHR ''/'' \<notin> set (drop (Suc (length folder)) p))
                \<and> fnmatch (basename p) include) fs"

definition archive_folder_with_zip :: "env \<Rightarrow> string \<Rightarrow> string \<Rightarrow> bool \<Rightarrow> string \<Rightarrow> unit prog" where
  "archive_folder_with_zip en folder archive_name recursive include =
     and_then (call en (ArchiveFolderWithZip folder archive_name recursive include)) (\<lambda>_ s.
       let filelist = list_files_in_directory folder recursive include (w_files s)
       in if filelist = [] then (Inl (ValueError ''No files found to archive''), s)
          else (Inr (), s\<lparr>w_archives :=
                  (archive_name, filelist) # filter (\<lambda>a. fst a \<noteq> archive_name) (w_archives s)\<rparr>))"

subsection \<open>Exception handling\<close>

definition try_except :: "'a prog \<Rightarrow> (error \<Rightarrow> 'a prog) \<Rightarrow> 'a prog" where
  "try_except m h s = (case m s of (Inl e, s') \<Rightarrow> h e s' | (Inr x, s') \<Rightarrow> (Inr x, s'))"

text \<open>An exception of the \<^verbatim>\<open>finally\<close> block replaces the outcome of the \<^verbatim>\<open>try\<close> block.\<close>

definition try_finally :: "'a prog \<Rightarrow> unit prog \<Rightarrow> 'a prog" where
  "try_finally m fin s =
     (case m s of (r, s') \<Rightarrow>
        (case fin s' of (Inl e, s'') \<Rightarrow> (Inl e, s'') | (Inr _, s'') \<Rightarrow> (r, s'')))"

subsection \<open>The functions of the script\<close>

definition archive_receipts :: "env \<Rightarrow> unit prog" where
  "archive_receipts en =
     and_then (archive_folder_with_zip en ''temp/receipts'' ''output/receipts.zip'' True ''*.pdf'')
       (\<lambda>_. logging_info ArchivedMsg)"

text \<open>
  The first argument is the number of nested calls Python still allows: at its limit the
  interpreter raises \<^verbatim>\<open>RecursionError\<close>. Each entry into the function is recorded with the
  arguments it received. The recursive call is \<^verbatim>\<open>click_order_button_with_retry(count + 1)\<close>:
  one positional argument, which binds \<^verbatim>\<open>row\<close>, and \<^verbatim>\<open>count\<close> takes its default.
\<close>

definition enter :: "pyval \<Rightarrow> int \<Rightarrow> unit prog" where
  "enter r c s = (Inr (), s\<lparr>w_trace := w_trace s @ [Enter_click_order_button_with_retry r c]\<rparr>)"

fun click_order_button_with_retry :: "env \<Rightarrow> nat \<Rightarrow> pyval \<Rightarrow> int \<Rightarrow> unit prog" where
  "click_order_button_with_retry en 0 row count = raise RecursionError"
| "click_order_button_with_retry en (Suc depth) row count =
     and_then (enter row count) (\<lambda>_.
     and_then (page_click en order_button) (\<lambda>_.
       if count > MAX_RETRIES then logging_error (FailedClickMsg row)
       else and_then (locator_is_visible en danger_alert) (\<lambda>visible.
              if visible then click_order_button_with_retry en depth (PInt (count + 1)) 0
              else ret ())))"

definition fill_the_form_for_one_order :: "env \<Rightarrow> row \<Rightarrow> string option prog" where
  "fill_the_form_for_one_order en row =
     and_then (lift (row_get row ''Head'')) (\<lambda>head.
     and_then (page_select_option en head_select (py_str head)) (\<lambda>_.
     and_then (lift (row_get row ''Body'')) (\<lambda>body.
     and_then (page_check en (body_radio (py_str body))) (\<lambda>_.
     and_then (lift (row_get row ''Legs'')) (\<lambda>legs.
     and_then (page_fill en legs_input (CStr (py_str legs))) (\<lambda>_.
     and_then (lift (row_get row ''Address'')) (\<lambda>address.
     and_then (page_fill en address_input address) (\<lambda>_.
     and_then (click_order_button_with_retry en (e_recursion_limit en) (PRow row) 0) (\<lambda>_.
     page_text_content en success_badge)))))))))"

definition save_receipt_as_image :: "env \<Rightarrow> string option \<Rightarrow> string prog" where
  "save_receipt_as_image en order_number =
     (let output_path = ''temp/receipts_images/robot_'' @ py_format order_number @ ''.png''
      in and_then (locator_screenshot en robot_preview output_path) (\<lambda>_. ret output_path))"

definition store_receipt_as_pdf :: "env \<Rightarrow> string option \<Rightarrow> string \<Rightarrow> unit prog" where
  "store_receipt_as_pdf en order_number image_path =
     (let pdf_path = ''temp/receipts/receipt_'' @ py_format order_number @ ''.pdf'';
          pdf_path_with_robot_image =
            ''temp/receipts/receipt_'' @ py_format order_number @ ''_with_robot_image.pdf''
      in and_then (locator_inner_html en receipt_div) (\<lambda>receipt_html.
         and_then (pdf_html_to_pdf en receipt_html pdf_path) (\<lambda>_.
         and_then (pdf_add_watermark_image_to_pdf en image_path pdf_path pdf_path_with_robot_image) (\<lambda>_.
         logging_info (ReceiptSavedMsg order_number)))))"

definition close_annoying_modal :: "env \<Rightarrow> unit prog" where
  "close_annoying_modal en = page_click en modal_button"

fun fill_the_form_and_store_receipts :: "env \<Rightarrow> row list \<Rightarrow> unit prog" where
  "fill_the_form_and_store_receipts en [] = ret ()"
| "fill_the_form_and_store_receipts en (row # rows) =
     and_then (makedirs en ''temp/receipts'') (\<lambda>_.
     and_then (makedirs en ''temp/receipts_images'') (\<lambda>_.
     and_then (browser_goto en ORDER_URL) (\<lambda>_.
     and_then (close_annoying_modal en) (\<lambda>_.
     and_then (fill_the_form_for_one_order en row) (\<lambda>order_number.
     and_then (save_receipt_as_image en order_number) (\<lambda>image_path.
     and_then (store_receipt_as_pdf en order_number image_path) (\<lambda>_.
     and_then (page_close en) (\<lambda>_.
     fill_the_form_and_store_receipts en rows))))))))"

definition get_orders :: "env \<Rightarrow> row list prog" where
  "get_orders en =
     and_then (requests_get en CSV_URL) (\<lambda>response.
     and_then (raise_for_status (fst response)) (\<lambda>_.
     lift (e_read_csv en (snd response))))"

definition cleanup :: "env \<Rightarrow> unit prog" where
  "cleanup en =
     try_except
       (and_then (path_exists ''temp'') (\<lambda>ex.
          if ex then and_then (rmtree en ''temp'') (\<lambda>_. logging_info CleanedUpMsg)
          else ret ()))
       (\<lambda>e. logging_error (CleanupErrorMsg e))"

text \<open>The \<^verbatim>\<open>try\<close> block of the task.\<close>

definition try_block :: "env \<Rightarrow> unit prog" where
  "try_block en =
     and_then (get_orders en) (\<lambda>orders.
     and_then (fill_the_form_and_store_receipts en orders) (\<lambda>_.
     archive_receipts en))"

definition order_robots_from_RobotSpareBin :: "env \<Rightarrow> unit prog" where
  "order_robots_from_RobotSpareBin en = try_finally (try_block en) (cleanup en)"

subsection \<open>Notions used in the statements\<close>

fun is_enter :: "event \<Rightarrow> bool" where
  "is_enter (Enter_click_order_button_with_retry r c) = True"
| "is_enter ev = False"

text \<open>The number of clicks on the submit button among the calls of a trace.\<close>

definition submit_clicks :: "event list \<Rightarrow> nat" where
  "submit_clicks h = length (filter (\<lambda>ev. ev = Click order_button) h)"

definition world0 :: world where
  "world0 = \<lparr>w_trace = [], w_dirs = [], w_files = [], w_archives = [], w_log = []\<rparr>"

definition example_row :: row where
  "example_row = [(''Head'', CStr ''2''), (''Body'', CStr ''3''), (''Legs'', CStr ''4''),
                  (''Address'', CStr ''Evergreen 123'')]"

text \<open>A site that shows the danger alert after every click; no call raises; the interpreter
  allows \<open>n\<close> nested calls.\<close>

definition alert_always_env :: "nat \<Rightarrow> env" where
  "alert_always_env n =
     \<lparr>e_raises = (\<lambda>h ev. None), e_http_response = (\<lambda>h. (200, [])),
      e_read_csv = (\<lambda>b. Inr []), e_is_visible = (\<lambda>h sel. True),
      e_text_content = (\<lambda>h sel. None), e_inner_html = (\<lambda>h sel. []),
      e_recursion_limit = n\<rparr>"

text \<open>A site that shows the danger alert after each of the first three clicks on the submit
  button and not after the fourth; no call raises.\<close>

definition alert_three_times_env :: "nat \<Rightarrow> env" where
  "alert_three_times_env n =
     \<lparr>e_raises = (\<lambda>h ev. None), e_http_response = (\<lambda>h. (200, [])),
      e_read_csv = (\<lambda>b. Inr []), e_is_visible = (\<lambda>h sel. submit_clicks h \<le> 3),
      e_text_content = (\<lambda>h sel. Some ''RSB-ROBO-ORDER-1''), e_inner_html = (\<lambda>h sel. ''<p>receipt</p>''),
      e_recursion_limit = n\<rparr>"

fun is_image_write :: "event \<Rightarrow> bool" where
  "is_image_write (Screenshot sel p) = True"
| "is_image_write ev = False"

fun is_pdf_write :: "event \<Rightarrow> bool" where
  "is_pdf_write (HtmlToPdf html p) = True"
| "is_pdf_write (AddWatermark i src p) = True"
| "is_pdf_write ev = False"

fun written :: "event \<Rightarrow> string list" where
  "written (Screenshot sel p) = [p]"
| "written (HtmlToPdf html p) = [p]"
| "written (AddWatermark i src p) = [p]"
| "written ev = []"

definition effects :: "world \<Rightarrow> world \<Rightarrow> nat \<Rightarrow> nat \<Rightarrow> bool" where
  "effects s s' i p =
     (\<exists>new. w_trace s' = w_trace s @ new
        \<and> length (filter is_image_write new) = i
        \<and> length (filter is_pdf_write new) = p
        \<and> set (w_files s') = set (w_files s) \<union> set (concat (map written new)))"

definition one_order_env :: env where
  "one_order_env =
     \<lparr>e_raises = (\<lambda>h ev. None), e_http_response = (\<lambda>h. (200, ''Order number,Head,Body,Legs,Address'')),
      e_read_csv = (\<lambda>b. Inr [example_row]), e_is_visible = (\<lambda>h sel. False),
      e_text_content = (\<lambda>h sel. Some ''RSB-ROBO-ORDER-1''), e_inner_html = (\<lambda>h sel. ''<p>receipt</p>''),
      e_recursion_limit = 1000\<rparr>"

definition is_retry_event :: "event \<Rightarrow> bool" where
  "is_retry_event ev = (is_enter ev \<or> ev = Click order_button \<or> ev = IsVisible danger_alert)"

text \<open>The same site, showing a success badge without text.\<close>

definition empty_badge_env :: env where
  "empty_badge_env = one_order_env\<lparr>e_text_content := (\<lambda>h sel. Some [])\<rparr>"

text \<open>The same site, answering the download of the order table with status 500.\<close>

definition http_500_env :: env where
  "http_500_env = one_order_env\<lparr>e_http_response := (\<lambda>h. (500, ''Internal Server Error''))\<rparr>"

text \<open>The same site, answering the download with status 300 and the table as body.\<close>

definition http_300_env :: env where
  "http_300_env = one_order_env\<lparr>e_http_response := (\<lambda>h. (300, ''Order number,Head,Body,Legs,Address''))\<rparr>"

text \<open>The same site, on a machine where the removal of \<^verbatim>\<open>temp\<close> is refused.\<close>

definition rmtree_fails_env :: env where
  "rmtree_fails_env =
     one_order_env\<lparr>e_raises := (\<lambda>h ev. if ev = Rmtree ''temp'' then Some (OSError ''PermissionError'') else None)\<rparr>"

text \<open>Both: the download is answered with status 500 and the removal of \<^verbatim>\<open>temp\<close> is
  refused.\<close>

definition http_500_rmtree_fails_env :: env where
  "http_500_rmtree_fails_env =
     rmtree_fails_env\<lparr>e_http_response := (\<lambda>h. (500, ''Internal Server Error''))\<rparr>"

text \<open>The same site, with an order table that has no rows.\<close>

definition no_orders_env :: env where
  "no_orders_env = one_order_env\<lparr>e_read_csv := (\<lambda>b. Inr [])\<rparr>"

text \<open>A machine on which an earlier run left \<^verbatim>\<open>temp\<close> behind.\<close>

definition stale_world :: world where
  "stale_world = world0\<lparr>w_dirs := [''temp'', ''temp/receipts''],
                         w_files := [''temp/receipts/receipt_old.pdf'']\<rparr>"

text \<open>The world after the \<^verbatim>\<open>try\<close> block of a run with one order that the site accepts at once.\<close>

definition one_order_done :: world where
  "one_order_done =
     \<lparr>w_trace =
        [HttpGet CSV_URL,
         Makedirs ''temp/receipts'', Makedirs ''temp/receipts_images'', Goto ORDER_URL,
         Click modal_button,
         SelectOption head_select ''2'', Check (body_radio ''3''), Fill legs_input (CStr ''4''),
         Fill address_input (CStr ''Evergreen 123''),
         Enter_click_order_button_with_retry (PRow example_row) 0, Click order_button,
         IsVisible danger_alert, TextContent success_badge,
         Screenshot robot_preview ''temp/receipts_images/robot_RSB-ROBO-ORDER-1.png'',
         InnerHtml receipt_div,
         HtmlToPdf ''<p>receipt</p>'' ''temp/receipts/receipt_RSB-ROBO-ORDER-1.pdf'',
         AddWatermark ''temp/receipts_images/robot_RSB-ROBO-ORDER-1.png''
           ''temp/receipts/receipt_RSB-ROBO-ORDER-1.pdf''
           ''temp/receipts/receipt_RSB-ROBO-ORDER-1_with_robot_image.pdf'',
         ClosePage,
         ArchiveFolderWithZip ''temp/receipts'' ''output/receipts.zip'' True ''*.pdf''],
      w_dirs = [''temp/receipts_images'', ''temp'', ''temp/receipts''],
      w_files = [''temp/receipts/receipt_RSB-ROBO-ORDER-1_with_robot_image.pdf'',
                 ''temp/receipts/receipt_RSB-ROBO-ORDER-1.pdf'',
                 ''temp/receipts_images/robot_RSB-ROBO-ORDER-1.png''],
      w_archives = [(''output/receipts.zip'',
                     [''temp/receipts/receipt_RSB-ROBO-ORDER-1_with_robot_image.pdf'',
                      ''temp/receipts/receipt_RSB-ROBO-ORDER-1.pdf''])],
      w_log = [LogInfo (ReceiptSavedMsg (Some ''RSB-ROBO-ORDER-1'')), LogInfo ArchivedMsg]\<rparr>"



section \<open>Properties\<close>

subsection \<open>The retry of the submit click\<close>

lemmas prog_defs = ret_def raise_def lift_def and_then_def call_def ask_def enter_def
  logging_info_def logging_error_def page_click_def locator_is_visible_def

lemma retry_step_visible:
  assumes "e_raises en (w_trace s @ [Enter_click_order_button_with_retry row count])
             (Click order_button) = None"
    and "e_raises en (w_trace s @ [Enter_click_order_button_with_retry row count, Click order_button])
             (IsVisible danger_alert) = None"
    and "e_is_visible en (w_trace s @ [Enter_click_order_button_with_retry row count, Click order_button])
             danger_alert"
    and "count \<le> MAX_RETRIES"
  shows "click_order_button_with_retry en (Suc depth) row count s =
         click_order_button_with_retry en depth (PInt (count + 1)) 0
           (s\<lparr>w_trace := w_trace s @ [Enter_click_order_button_with_retry row count,
                                        Click order_button, IsVisible danger_alert]\<rparr>)"
  using assms by (simp add: prog_defs)

lemma retry_step_absent:
  assumes "e_raises en (w_trace s @ [Enter_click_order_button_with_retry row count])
             (Click order_button) = None"
    and "e_raises en (w_trace s @ [Enter_click_order_button_with_retry row count, Click order_button])
             (IsVisible danger_alert) = None"
    and "\<not> e_is_visible en (w_trace s @ [Enter_click_order_button_with_retry row count, Click order_button])
             danger_alert"
    and "count \<le> MAX_RETRIES"
  shows "click_order_button_with_retry en (Suc depth) row count s =
         (Inr (), s\<lparr>w_trace := w_trace s @ [Enter_click_order_button_with_retry row count,
                                        Click order_button, IsVisible danger_alert]\<rparr>)"
  using assms by (simp add: prog_defs)

text \<open>While the alert stays visible, each level of the recursion clicks once and calls the
  next, down to the interpreter's limit.\<close>

lemma retry_alert_stuck:
  assumes nr: "\<forall>h ev. e_raises en h ev = None"
    and vis: "\<forall>h. e_is_visible en h danger_alert"
  shows "count \<le> MAX_RETRIES \<Longrightarrow>
     fst (click_order_button_with_retry en depth row count s) = Inl RecursionError
   \<and> w_log (snd (click_order_button_with_retry en depth row count s)) = w_log s
   \<and> submit_clicks (w_trace (snd (click_order_button_with_retry en depth row count s)))
       = submit_clicks (w_trace s) + depth"
proof (induction depth arbitrary: row count s)
  case 0
  then show ?case by (simp add: raise_def)
next
  case (Suc depth)
  have z: "(0::int) \<le> MAX_RETRIES" by (simp add: MAX_RETRIES_def)
  have step: "click_order_button_with_retry en (Suc depth) row count s =
         click_order_button_with_retry en depth (PInt (count + 1)) 0
           (s\<lparr>w_trace := w_trace s @ [Enter_click_order_button_with_retry row count,
                                        Click order_button, IsVisible danger_alert]\<rparr>)"
    using nr vis Suc.prems by (intro retry_step_visible) simp_all
  show ?case
    unfolding step using Suc.IH [OF z]
    by (simp add: submit_clicks_def order_button_def danger_alert_def)
qed

text \<open>In any environment, a call whose count is within the bound logs nothing, and every
  entry after the first received an integer as row and the count 0.\<close>

lemma retry_entries:
  "count \<le> MAX_RETRIES \<Longrightarrow>
   w_log (snd (click_order_button_with_retry en depth row count s)) = w_log s
   \<and> (\<exists>new n. w_trace (snd (click_order_button_with_retry en depth row count s)) = w_trace s @ new
        \<and> (filter is_enter new = []
           \<or> filter is_enter new = [Enter_click_order_button_with_retry row count]
           \<or> filter is_enter new
               = Enter_click_order_button_with_retry row count
                 # Enter_click_order_button_with_retry (PInt (count + 1)) 0
                 # replicate n (Enter_click_order_button_with_retry (PInt 1) 0)))"
proof (induction depth arbitrary: row count s)
  case 0
  then show ?case by (simp add: raise_def)
next
  case (Suc depth)
  let ?E = "Enter_click_order_button_with_retry row count"
  let ?s1 = "s\<lparr>w_trace := w_trace s @ [?E]\<rparr>"
  let ?s2 = "s\<lparr>w_trace := w_trace s @ [?E, Click order_button]\<rparr>"
  let ?s3 = "s\<lparr>w_trace := w_trace s @ [?E, Click order_button, IsVisible danger_alert]\<rparr>"
  let ?r = "click_order_button_with_retry en (Suc depth) row count s"
  have z: "(0::int) \<le> MAX_RETRIES" by (simp add: MAX_RETRIES_def)
  consider (a) "\<exists>e. ?r = (Inl e, ?s2)"
    | (b) "\<exists>e. ?r = (Inl e, ?s3)"
    | (c) "?r = (Inr (), ?s3)"
    | (d) "?r = click_order_button_with_retry en depth (PInt (count + 1)) 0 ?s3"
  proof (cases "e_raises en (w_trace ?s1) (Click order_button)")
    case (Some e)
    then have "?r = (Inl e, ?s2)" by (simp add: prog_defs)
    then show ?thesis using a by blast
  next
    case None
    note click_ok = this
    show ?thesis
    proof (cases "e_raises en (w_trace ?s2) (IsVisible danger_alert)")
      case (Some e)
      with click_ok Suc.prems have "?r = (Inl e, ?s3)" by (simp add: prog_defs)
      then show ?thesis using b by blast
    next
      case None
      show ?thesis
      proof (cases "e_is_visible en (w_trace ?s2) danger_alert")
        case True
        with click_ok None Suc.prems
        have "?r = click_order_button_with_retry en depth (PInt (count + 1)) 0 ?s3"
          by (simp add: prog_defs)
        then show ?thesis using d by blast
      next
        case False
        with click_ok None Suc.prems have "?r = (Inr (), ?s3)"
          by (simp add: prog_defs)
        then show ?thesis using c by blast
      qed
    qed
  qed
  then show ?case
  proof cases
    case a
    then show ?thesis by auto
  next
    case b
    then show ?thesis by auto
  next
    case c
    then show ?thesis by simp
  next
    case d
    let ?E' = "Enter_click_order_button_with_retry (PInt (count + 1)) 0"
    let ?E1 = "Enter_click_order_button_with_retry (PInt 1) 0"
    let ?r' = "click_order_button_with_retry en depth (PInt (count + 1)) 0 ?s3"
    from Suc.IH [OF z, of "PInt (count + 1)" ?s3]
    obtain new n where l: "w_log (snd ?r') = w_log s"
      and t: "w_trace (snd ?r') = w_trace ?s3 @ new"
      and f: "filter is_enter new = [] \<or> filter is_enter new = [?E']
               \<or> filter is_enter new = ?E' # ?E1 # replicate n ?E1"
      by auto
    let ?new = "[?E, Click order_button, IsVisible danger_alert] @ new"
    have t': "w_trace (snd ?r) = w_trace s @ ?new" using d t by simp
    have f': "filter is_enter ?new = [?E]
          \<or> filter is_enter ?new = ?E # ?E' # replicate 0 ?E1
          \<or> filter is_enter ?new = ?E # ?E' # replicate (Suc n) ?E1"
      using f by auto
    from l d t' f' show ?thesis by (metis (no_types, lifting))
  qed
qed

text \<open>
  C9. In every call of \<^verbatim>\<open>click_order_button_with_retry\<close> whose count is within the bound,
  the recursive calls receive an integer in the place of the row and the count 0, so the guard
  \<^verbatim>\<open>count > MAX_RETRIES\<close> never holds in them. When the danger alert is visible after every
  click (and no call raises), the function therefore never returns: whatever number of nested
  calls the interpreter allows, it makes all of them, clicks once in each, logs nothing and
  ends in \<^verbatim>\<open>RecursionError\<close>.
\<close>

theorem retry_recurses_without_bound:
  assumes "\<forall>h ev. e_raises en h ev = None"
    and "\<forall>h. e_is_visible en h danger_alert"
    and "count \<le> MAX_RETRIES"
  shows "fst (click_order_button_with_retry en depth row count s) = Inl RecursionError
   \<and> w_log (snd (click_order_button_with_retry en depth row count s)) = w_log s
   \<and> submit_clicks (w_trace (snd (click_order_button_with_retry en depth row count s)))
       = submit_clicks (w_trace s) + depth
   \<and> (\<exists>new ks. w_trace (snd (click_order_button_with_retry en depth row count s)) = w_trace s @ new
        \<and> tl (filter is_enter new)
            = map (\<lambda>k. Enter_click_order_button_with_retry (PInt k) 0) ks)"
proof -
  let ?E1 = "Enter_click_order_button_with_retry (PInt 1) 0"
  let ?f = "\<lambda>k. Enter_click_order_button_with_retry (PInt k) 0"
  from retry_entries [OF assms(3), of en depth row s]
  obtain new n where t: "w_trace (snd (click_order_button_with_retry en depth row count s)) = w_trace s @ new"
    and f: "filter is_enter new = []
            \<or> filter is_enter new = [Enter_click_order_button_with_retry row count]
            \<or> filter is_enter new = Enter_click_order_button_with_retry row count
                 # Enter_click_order_button_with_retry (PInt (count + 1)) 0 # replicate n ?E1"
    by auto
  from f have "tl (filter is_enter new) = map ?f []
     \<or> tl (filter is_enter new) = map ?f ((count + 1) # replicate n 1)"
    by auto
  with t have "\<exists>new ks. w_trace (snd (click_order_button_with_retry en depth row count s)) = w_trace s @ new
        \<and> tl (filter is_enter new) = map ?f ks"
    by blast
  with retry_alert_stuck [OF assms(1) assms(2) assms(3), of depth row s] show ?thesis
    by blast
qed

theorem retry_recurses_without_bound_witness:
  "(\<forall>h ev. e_raises (alert_always_env 7) h ev = None)
   \<and> (\<forall>h. e_is_visible (alert_always_env 7) h danger_alert)
   \<and> (0::int) \<le> MAX_RETRIES
   \<and> fst (click_order_button_with_retry (alert_always_env 7) 7 (PRow example_row) 0 world0)
       = Inl RecursionError
   \<and> w_log (snd (click_order_button_with_retry (alert_always_env 7) 7 (PRow example_row) 0 world0))
       = []
   \<and> submit_clicks
       (w_trace (snd (click_order_button_with_retry (alert_always_env 7) 7 (PRow example_row) 0 world0)))
       = 7"
proof -
  have h1: "\<forall>h ev. e_raises (alert_always_env 7) h ev = None"
    by (simp add: alert_always_env_def)
  have h2: "\<forall>h. e_is_visible (alert_always_env 7) h danger_alert"
    by (simp add: alert_always_env_def)
  have h3: "(0::int) \<le> MAX_RETRIES" by (simp add: MAX_RETRIES_def)
  from retry_recurses_without_bound [OF h1 h2 h3, of 7 "PRow example_row" world0] h1 h2 h3
  show ?thesis by (simp add: world0_def submit_clicks_def)
qed

text \<open>When the alert goes away after the fourth click, the call clicks four times and returns.\<close>

lemma retry_three_alerts_then_success:
  "click_order_button_with_retry (alert_three_times_env n) (Suc (Suc (Suc (Suc d))))
     (PRow example_row) 0 world0
   = (Inr (), world0\<lparr>w_trace :=
        [Enter_click_order_button_with_retry (PRow example_row) 0, Click order_button,
         IsVisible danger_alert,
         Enter_click_order_button_with_retry (PInt 1) 0, Click order_button, IsVisible danger_alert,
         Enter_click_order_button_with_retry (PInt 1) 0, Click order_button, IsVisible danger_alert,
         Enter_click_order_button_with_retry (PInt 1) 0, Click order_button, IsVisible danger_alert]\<rparr>)"
  by (simp add: prog_defs alert_three_times_env_def submit_clicks_def world0_def MAX_RETRIES_def
      order_button_def danger_alert_def)

text \<open>
  C1. The retry of the submit click is meant to be bounded by \<^verbatim>\<open>MAX_RETRIES\<close>. On a site
  that shows the danger alert after every click, with an interpreter that allows 1000 nested
  calls, the call made by the form driver clicks 1000 times (not \<^verbatim>\<open>MAX_RETRIES + 1\<close> times),
  logs no error, and ends in \<^verbatim>\<open>RecursionError\<close>.
\<close>

theorem retry_bound_not_enforced:
  "fst (click_order_button_with_retry (alert_always_env 1000)
          (e_recursion_limit (alert_always_env 1000)) (PRow example_row) 0 world0)
     = Inl RecursionError
   \<and> submit_clicks (w_trace (snd (click_order_button_with_retry (alert_always_env 1000)
          (e_recursion_limit (alert_always_env 1000)) (PRow example_row) 0 world0))) = 1000
   \<and> w_log (snd (click_order_button_with_retry (alert_always_env 1000)
          (e_recursion_limit (alert_always_env 1000)) (PRow example_row) 0 world0)) = []"
proof -
  have h1: "\<forall>h ev. e_raises (alert_always_env 1000) h ev = None"
    by (simp add: alert_always_env_def)
  have h2: "\<forall>h. e_is_visible (alert_always_env 1000) h danger_alert"
    by (simp add: alert_always_env_def)
  have h3: "(0::int) \<le> MAX_RETRIES" by (simp add: MAX_RETRIES_def)
  have l: "e_recursion_limit (alert_always_env 1000) = 1000"
    by (simp add: alert_always_env_def)
  from retry_alert_stuck [OF h1 h2 h3, of 1000 "PRow example_row" world0]
  show ?thesis unfolding l by (simp add: world0_def submit_clicks_def)
qed

text \<open>
  C2. The recursive call of \<^verbatim>\<open>click_order_button_with_retry\<close> passes the incremented count
  in the place of the row: in the call the form driver makes for a row, every later entry into
  the function received the integer 1 as row and the count 0. No entry of the log comes from it,
  so no logged error names the row that failed.
\<close>

theorem retry_drops_row:
  "w_log (snd (click_order_button_with_retry en depth (PRow r) 0 s)) = w_log s
   \<and> (\<exists>new n. w_trace (snd (click_order_button_with_retry en depth (PRow r) 0 s)) = w_trace s @ new
        \<and> tl (filter is_enter new) = replicate n (Enter_click_order_button_with_retry (PInt 1) 0))"
proof -
  let ?E1 = "Enter_click_order_button_with_retry (PInt 1) 0"
  have z: "(0::int) \<le> MAX_RETRIES" by (simp add: MAX_RETRIES_def)
  from retry_entries [OF z, of en depth "PRow r" s]
  obtain new n where l: "w_log (snd (click_order_button_with_retry en depth (PRow r) 0 s)) = w_log s"
    and t: "w_trace (snd (click_order_button_with_retry en depth (PRow r) 0 s)) = w_trace s @ new"
    and f: "filter is_enter new = []
            \<or> filter is_enter new = [Enter_click_order_button_with_retry (PRow r) 0]
            \<or> filter is_enter new = Enter_click_order_button_with_retry (PRow r) 0
                 # Enter_click_order_button_with_retry (PInt (0 + 1)) 0 # replicate n ?E1"
    by auto
  from f have "tl (filter is_enter new) = replicate 0 ?E1
     \<or> tl (filter is_enter new) = replicate (Suc n) ?E1"
    by auto
  with l t show ?thesis by blast
qed

lemma retry_cases:
  fixes en depth row count s
  defines "r \<equiv> click_order_button_with_retry en (Suc depth) row count s"
    and "s2 \<equiv> s\<lparr>w_trace := w_trace s @ [Enter_click_order_button_with_retry row count, Click order_button]\<rparr>"
    and "s3 \<equiv> s\<lparr>w_trace := w_trace s @ [Enter_click_order_button_with_retry row count, Click order_button,
                   IsVisible danger_alert]\<rparr>"
  obtains (raise_click) e where "r = (Inl e, s2)"
    | (exceeded) "r = (Inr (), s2\<lparr>w_log := w_log s @ [LogError (FailedClickMsg row)]\<rparr>)"
    | (raise_visible) e where "r = (Inl e, s3)"
    | (absent) "r = (Inr (), s3)"
    | (again) "r = click_order_button_with_retry en depth (PInt (count + 1)) 0 s3"
proof (cases "e_raises en (w_trace s @ [Enter_click_order_button_with_retry row count]) (Click order_button)")
  case (Some e)
  then have "r = (Inl e, s2)" by (simp add: r_def s2_def prog_defs)
  then show ?thesis by (rule raise_click)
next
  case None
  note click_ok = this
  show ?thesis
  proof (cases "count > MAX_RETRIES")
    case True
    with click_ok have "r = (Inr (), s2\<lparr>w_log := w_log s @ [LogError (FailedClickMsg row)]\<rparr>)"
      by (simp add: r_def s2_def prog_defs)
    then show ?thesis by (rule exceeded)
  next
    case False
    note within = this
    show ?thesis
    proof (cases "e_raises en (w_trace s2) (IsVisible danger_alert)")
      case (Some e)
      with click_ok within have "r = (Inl e, s3)" by (simp add: r_def s2_def s3_def prog_defs)
      then show ?thesis by (rule raise_visible)
    next
      case None
      show ?thesis
      proof (cases "e_is_visible en (w_trace s2) danger_alert")
        case True
        with click_ok within None
        have "r = click_order_button_with_retry en depth (PInt (count + 1)) 0 s3"
          by (simp add: r_def s2_def s3_def prog_defs)
        then show ?thesis by (rule again)
      next
        case False
        with click_ok within None have "r = (Inr (), s3)"
          by (simp add: r_def s2_def s3_def prog_defs)
        then show ?thesis by (rule absent)
      qed
    qed
  qed
qed

lemma retry_effects:
  "\<exists>new. w_trace (snd (click_order_button_with_retry en depth row count s)) = w_trace s @ new
        \<and> (\<forall>ev \<in> set new. is_retry_event ev)
        \<and> w_files (snd (click_order_button_with_retry en depth row count s)) = w_files s
        \<and> w_dirs (snd (click_order_button_with_retry en depth row count s)) = w_dirs s
        \<and> w_archives (snd (click_order_button_with_retry en depth row count s)) = w_archives s"
proof (induction depth arbitrary: row count s)
  case 0
  then show ?case by (simp add: raise_def)
next
  case (Suc depth)
  let ?E = "Enter_click_order_button_with_retry row count"
  let ?s3 = "s\<lparr>w_trace := w_trace s @ [?E, Click order_button, IsVisible danger_alert]\<rparr>"
  show ?case
  proof (cases rule: retry_cases [of en depth row count s])
    case (raise_click e)
    then show ?thesis by (simp add: is_retry_event_def)
  next
    case exceeded
    then show ?thesis by (simp add: is_retry_event_def)
  next
    case (raise_visible e)
    then show ?thesis by (simp add: is_retry_event_def)
  next
    case absent
    then show ?thesis by (simp add: is_retry_event_def)
  next
    case again
    from Suc.IH [of "PInt (count + 1)" 0 ?s3]
    obtain new where t: "w_trace (snd (click_order_button_with_retry en depth (PInt (count + 1)) 0 ?s3))
          = w_trace ?s3 @ new"
      and r: "\<forall>ev \<in> set new. is_retry_event ev"
      and f: "w_files (snd (click_order_button_with_retry en depth (PInt (count + 1)) 0 ?s3)) = w_files s"
             "w_dirs (snd (click_order_button_with_retry en depth (PInt (count + 1)) 0 ?s3)) = w_dirs s"
             "w_archives (snd (click_order_button_with_retry en depth (PInt (count + 1)) 0 ?s3)) = w_archives s"
      by auto
    let ?new = "[?E, Click order_button, IsVisible danger_alert] @ new"
    have "w_trace (snd (click_order_button_with_retry en (Suc depth) row count s)) = w_trace s @ ?new"
      using again t by simp
    moreover have "\<forall>ev \<in> set ?new. is_retry_event ev"
      using r by (simp add: is_retry_event_def)
    ultimately show ?thesis using again f by (metis (no_types, lifting))
  qed
qed

lemma retry_effectsD:
  "click_order_button_with_retry en depth row count s = (x, s') \<Longrightarrow>
   \<exists>new. w_trace s' = w_trace s @ new \<and> (\<forall>ev \<in> set new. is_retry_event ev)
        \<and> w_files s' = w_files s \<and> w_dirs s' = w_dirs s \<and> w_archives s' = w_archives s"
  using retry_effects [of en depth row count s] by simp

lemma and_then_InrE:
  assumes "and_then m f s = (Inr y, s')"
  obtains x s1 where "m s = (Inr x, s1)" and "f x s1 = (Inr y, s')"
  using assms by (auto simp add: and_then_def split: prod.splits sum.splits)

lemma call_InrE:
  assumes "call en ev s = (Inr x, s')"
  obtains "s' = s\<lparr>w_trace := w_trace s @ [ev]\<rparr>"
  using assms by (auto simp add: call_def Let_def split: option.splits)

lemma ask_InrE:
  assumes "ask en ev f s = (Inr x, s')"
  obtains "s' = s\<lparr>w_trace := w_trace s @ [ev]\<rparr>" and "x = f (w_trace s)"
  using assms by (auto simp add: ask_def call_def Let_def split: option.splits)

lemma lift_InrE:
  assumes "lift r s = (Inr x, s')"
  obtains "r = Inr x" and "s' = s"
  using assms by (auto simp add: lift_def)

lemma retry_event_kinds:
  "is_retry_event ev \<Longrightarrow> \<not> is_image_write ev \<and> \<not> is_pdf_write ev \<and> written ev = []"
  by (cases ev) (auto simp add: is_retry_event_def)

text \<open>A run of the form driver that returns: the calls it made and what it returns.\<close>

lemma form_success:
  assumes "fill_the_form_for_one_order en row s = (Inr n, s')"
  shows "\<exists>head body legs address new.
           row_get row ''Head'' = Inr head \<and> row_get row ''Body'' = Inr body
         \<and> row_get row ''Legs'' = Inr legs \<and> row_get row ''Address'' = Inr address
         \<and> w_trace s' = w_trace s @ [SelectOption head_select (py_str head),
                Check (body_radio (py_str body)), Fill legs_input (CStr (py_str legs)),
                Fill address_input address] @ new @ [TextContent success_badge]
         \<and> (\<forall>ev \<in> set new. is_retry_event ev)
         \<and> n = e_text_content en (w_trace s @ [SelectOption head_select (py_str head),
                Check (body_radio (py_str body)), Fill legs_input (CStr (py_str legs)),
                Fill address_input address] @ new) success_badge
         \<and> w_files s' = w_files s \<and> w_dirs s' = w_dirs s \<and> w_archives s' = w_archives s"
  using assms
  unfolding fill_the_form_for_one_order_def page_select_option_def page_check_def page_fill_def
    page_text_content_def
  apply (elim and_then_InrE call_InrE ask_InrE lift_InrE)
  apply (drule retry_effectsD)
  apply (elim exE conjE)
  apply simp
  done

lemma retry_events_write_nothing [simp]:
  assumes "\<forall>ev \<in> set new. is_retry_event ev"
  shows "filter is_image_write new = []" and "filter is_pdf_write new = []"
    and "concat (map written new) = []"
  using assms by (induction new) (auto dest: retry_event_kinds)

lemma image_success:
  assumes "save_receipt_as_image en order_number s = (Inr p, s')"
  shows "p = ''temp/receipts_images/robot_'' @ py_format order_number @ ''.png''
       \<and> w_trace s' = w_trace s @ [Screenshot robot_preview p]
       \<and> w_files s' = List.insert p (w_files s) \<and> w_dirs s' = w_dirs s \<and> w_archives s' = w_archives s"
  using assms
  unfolding save_receipt_as_image_def locator_screenshot_def Let_def
  apply (elim and_then_InrE call_InrE)
  apply (simp add: ret_def write_file_def)
  apply auto
  done

lemma pdf_success:
  assumes "store_receipt_as_pdf en order_number image_path s = (Inr x, s')"
  shows "w_trace s' = w_trace s @
           [InnerHtml receipt_div,
            HtmlToPdf (e_inner_html en (w_trace s) receipt_div)
              (''temp/receipts/receipt_'' @ py_format order_number @ ''.pdf''),
            AddWatermark image_path (''temp/receipts/receipt_'' @ py_format order_number @ ''.pdf'')
              (''temp/receipts/receipt_'' @ py_format order_number @ ''_with_robot_image.pdf'')]
       \<and> w_files s' = List.insert (''temp/receipts/receipt_'' @ py_format order_number @ ''_with_robot_image.pdf'')
                         (List.insert (''temp/receipts/receipt_'' @ py_format order_number @ ''.pdf'') (w_files s))
       \<and> w_dirs s' = w_dirs s \<and> w_archives s' = w_archives s"
  using assms
  unfolding store_receipt_as_pdf_def locator_inner_html_def pdf_html_to_pdf_def
    pdf_add_watermark_image_to_pdf_def Let_def
  apply (elim and_then_InrE call_InrE ask_InrE)
  apply (simp add: write_file_def logging_info_def)
  apply auto
  done

lemma makedirs_success:
  assumes "makedirs en p s = (Inr x, s')"
  shows "w_trace s' = w_trace s @ [Makedirs p] \<and> w_files s' = w_files s \<and> w_archives s' = w_archives s"
  using assms unfolding makedirs_def
  apply (elim and_then_InrE call_InrE)
  apply (auto split: if_splits)
  done

lemma effects_trans:
  assumes "effects s s1 i p" and "effects s1 s2 j q"
  shows "effects s s2 (i + j) (p + q)"
proof -
  from assms(1) obtain new1 where a: "w_trace s1 = w_trace s @ new1"
    "length (filter is_image_write new1) = i" "length (filter is_pdf_write new1) = p"
    "set (w_files s1) = set (w_files s) \<union> set (concat (map written new1))"
    by (auto simp add: effects_def)
  from assms(2) obtain new2 where b: "w_trace s2 = w_trace s1 @ new2"
    "length (filter is_image_write new2) = j" "length (filter is_pdf_write new2) = q"
    "set (w_files s2) = set (w_files s1) \<union> set (concat (map written new2))"
    by (auto simp add: effects_def)
  have "w_trace s2 = w_trace s @ (new1 @ new2)" using a(1) b(1) by simp
  moreover have "length (filter is_image_write (new1 @ new2)) = i + j" using a(2) b(2) by simp
  moreover have "length (filter is_pdf_write (new1 @ new2)) = p + q" using a(3) b(3) by simp
  moreover have "set (w_files s2) = set (w_files s) \<union> set (concat (map written (new1 @ new2)))"
    using a(4) b(4) by auto
  ultimately show ?thesis unfolding effects_def by blast
qed

lemma effects_call:
  assumes "call en ev s = (Inr x, s')" and "\<not> is_image_write ev" and "\<not> is_pdf_write ev"
    and "written ev = []"
  shows "effects s s' 0 0"
proof -
  from assms(1) have "s' = s\<lparr>w_trace := w_trace s @ [ev]\<rparr>" by (rule call_InrE)
  then have "w_trace s' = w_trace s @ [ev]" and "w_files s' = w_files s" by simp_all
  with assms(2-4) show ?thesis unfolding effects_def by (intro exI [of _ "[ev]"]) simp
qed

lemma makedirs_effects:
  assumes "makedirs en p s = (Inr x, s')"
  shows "effects s s' 0 0"
  using makedirs_success [OF assms] unfolding effects_def
  by (intro exI [of _ "[Makedirs p]"]) simp

lemma form_effects:
  assumes "fill_the_form_for_one_order en row s = (Inr n, s')"
  shows "effects s s' 0 0"
proof -
  from form_success [OF assms] obtain new where
    "w_trace s' = w_trace s @ new" "filter is_image_write new = []" "filter is_pdf_write new = []"
    "concat (map written new) = []" "w_files s' = w_files s"
    by fastforce
  then show ?thesis unfolding effects_def by (intro exI [of _ new]) simp
qed

lemma image_effects:
  assumes "save_receipt_as_image en order_number s = (Inr p, s')"
  shows "effects s s' 1 0"
  using image_success [OF assms] unfolding effects_def
  by (intro exI [of _ "[Screenshot robot_preview p]"]) simp

lemma pdf_effects:
  assumes "store_receipt_as_pdf en order_number image_path s = (Inr x, s')"
  shows "effects s s' 0 2"
  using pdf_success [OF assms] unfolding effects_def
  by (intro exI [of _ "[InnerHtml receipt_div,
            HtmlToPdf (e_inner_html en (w_trace s) receipt_div)
              (''temp/receipts/receipt_'' @ py_format order_number @ ''.pdf''),
            AddWatermark image_path (''temp/receipts/receipt_'' @ py_format order_number @ ''.pdf'')
              (''temp/receipts/receipt_'' @ py_format order_number @ ''_with_robot_image.pdf'')]"])
     auto

text \<open>The path through one turn of the loop on which nothing raises.\<close>

lemma loop_Cons_InrE:
  assumes "fill_the_form_and_store_receipts en (row # rows) s = (Inr x, s')"
  obtains s1 s2 s3 s4 n s5 p s6 s7 s8 where
    "makedirs en ''temp/receipts'' s = (Inr (), s1)"
    "makedirs en ''temp/receipts_images'' s1 = (Inr (), s2)"
    "browser_goto en ORDER_URL s2 = (Inr (), s3)"
    "close_annoying_modal en s3 = (Inr (), s4)"
    "fill_the_form_for_one_order en row s4 = (Inr n, s5)"
    "save_receipt_as_image en n s5 = (Inr p, s6)"
    "store_receipt_as_pdf en n p s6 = (Inr (), s7)"
    "page_close en s7 = (Inr (), s8)"
    "fill_the_form_and_store_receipts en rows s8 = (Inr x, s')"
  using assms
  apply (simp only: fill_the_form_and_store_receipts.simps)
  apply (elim and_then_InrE)
  apply simp
  done

lemma loop_success:
  "fill_the_form_and_store_receipts en orders s = (Inr x, s') \<Longrightarrow>
   effects s s' (length orders) (2 * length orders)"
proof (induction orders arbitrary: s)
  case Nil
  then show ?case by (simp add: ret_def effects_def)
next
  case (Cons row rows)
  from Cons.prems obtain s1 s2 s3 s4 n s5 p s6 s7 s8 where
    r: "makedirs en ''temp/receipts'' s = (Inr (), s1)"
    "makedirs en ''temp/receipts_images'' s1 = (Inr (), s2)"
    "browser_goto en ORDER_URL s2 = (Inr (), s3)"
    "close_annoying_modal en s3 = (Inr (), s4)"
    "fill_the_form_for_one_order en row s4 = (Inr n, s5)"
    "save_receipt_as_image en n s5 = (Inr p, s6)"
    "store_receipt_as_pdf en n p s6 = (Inr (), s7)"
    "page_close en s7 = (Inr (), s8)"
    "fill_the_form_and_store_receipts en rows s8 = (Inr x, s')"
    by (rule loop_Cons_InrE)
  have e1: "effects s s1 0 0" using r(1) by (rule makedirs_effects)
  have e2: "effects s1 s2 0 0" using r(2) by (rule makedirs_effects)
  have e3: "effects s2 s3 0 0" using r(3) unfolding browser_goto_def by (rule effects_call) simp_all
  have e4: "effects s3 s4 0 0" using r(4) unfolding close_annoying_modal_def page_click_def
    by (rule effects_call) simp_all
  have e5: "effects s4 s5 0 0" using r(5) by (rule form_effects)
  have e6: "effects s5 s6 1 0" using r(6) by (rule image_effects)
  have e7: "effects s6 s7 0 2" using r(7) by (rule pdf_effects)
  have e8: "effects s7 s8 0 0" using r(8) unfolding page_close_def by (rule effects_call) simp_all
  have e9: "effects s8 s' (length rows) (2 * length rows)" using r(9) by (rule Cons.IH)
  from effects_trans [OF e1 effects_trans [OF e2 effects_trans [OF e3 effects_trans [OF e4
        effects_trans [OF e5 effects_trans [OF e6 effects_trans [OF e7 effects_trans [OF e8 e9]]]]]]]]
  show ?case by simp
qed

lemma retry_numeral:
  "click_order_button_with_retry en (numeral k) row count =
     and_then (enter row count) (\<lambda>_.
     and_then (page_click en order_button) (\<lambda>_.
       if count > MAX_RETRIES then logging_error (FailedClickMsg row)
       else and_then (locator_is_visible en danger_alert) (\<lambda>visible.
              if visible then click_order_button_with_retry en (pred_numeral k) (PInt (count + 1)) 0
              else ret ())))"
  by (simp add: numeral_eq_Suc)

lemma ancestors_receipts: "ancestors ''temp/receipts'' = [''temp'', ''temp/receipts'']"
  by (simp add: ancestors_def)

lemma ancestors_images: "ancestors ''temp/receipts_images'' = [''temp'', ''temp/receipts_images'']"
  by (simp add: ancestors_def)

lemmas run_defs = prog_defs order_robots_from_RobotSpareBin_def try_block_def try_finally_def try_except_def
  cleanup_def get_orders_def requests_get_def raise_for_status_def archive_receipts_def
  archive_folder_with_zip_def list_files_in_directory_def store_receipt_as_pdf_def save_receipt_as_image_def
  fill_the_form_for_one_order_def close_annoying_modal_def makedirs_def rmtree_def path_exists_def
  browser_goto_def page_select_option_def page_check_def page_fill_def page_text_content_def page_close_def
  locator_inner_html_def locator_screenshot_def pdf_html_to_pdf_def pdf_add_watermark_image_to_pdf_def
  write_file_def py_format_def py_str_def row_get_def retry_numeral MAX_RETRIES_def Let_def
  ancestors_receipts ancestors_images is_under_def basename_def fnmatch_def

subsection \<open>The form driver and the receipts\<close>

text \<open>The run of the form driver and of the loop on a site that accepts the order at once.\<close>

lemma one_order_form:
  "fill_the_form_for_one_order one_order_env example_row s =
     (Inr (Some ''RSB-ROBO-ORDER-1''),
      s\<lparr>w_trace := w_trace s @
         [SelectOption head_select ''2'', Check (body_radio ''3''), Fill legs_input (CStr ''4''),
          Fill address_input (CStr ''Evergreen 123''),
          Enter_click_order_button_with_retry (PRow example_row) 0, Click order_button,
          IsVisible danger_alert, TextContent success_badge]\<rparr>)"
  by (simp add: run_defs one_order_env_def example_row_def)

lemma one_order_loop:
  "fill_the_form_and_store_receipts one_order_env [example_row] world0 =
     (Inr (),
      \<lparr>w_trace =
         [Makedirs ''temp/receipts'', Makedirs ''temp/receipts_images'', Goto ORDER_URL,
          Click modal_button,
          SelectOption head_select ''2'', Check (body_radio ''3''), Fill legs_input (CStr ''4''),
          Fill address_input (CStr ''Evergreen 123''),
          Enter_click_order_button_with_retry (PRow example_row) 0, Click order_button,
          IsVisible danger_alert, TextContent success_badge,
          Screenshot robot_preview ''temp/receipts_images/robot_RSB-ROBO-ORDER-1.png'',
          InnerHtml receipt_div,
          HtmlToPdf ''<p>receipt</p>'' ''temp/receipts/receipt_RSB-ROBO-ORDER-1.pdf'',
          AddWatermark ''temp/receipts_images/robot_RSB-ROBO-ORDER-1.png''
            ''temp/receipts/receipt_RSB-ROBO-ORDER-1.pdf''
            ''temp/receipts/receipt_RSB-ROBO-ORDER-1_with_robot_image.pdf'',
          ClosePage],
       w_dirs = [''temp/receipts_images'', ''temp'', ''temp/receipts''],
       w_files = [''temp/receipts/receipt_RSB-ROBO-ORDER-1_with_robot_image.pdf'',
                  ''temp/receipts/receipt_RSB-ROBO-ORDER-1.pdf'',
                  ''temp/receipts_images/robot_RSB-ROBO-ORDER-1.png''],
       w_archives = [],
       w_log = [LogInfo (ReceiptSavedMsg (Some ''RSB-ROBO-ORDER-1''))]\<rparr>)"
  by (simp add: run_defs one_order_env_def example_row_def world0_def)

text \<open>
  C3 (amended). For every row that the loop processes to its end, whatever badge text the site
  shows, the pipeline makes exactly one image write and exactly two PDF writes (the plain
  receipt and the receipt with the robot image; both are kept). So in a run of the loop that
  returns, the number of image writes equals the number of rows, the number of PDF writes is
  twice the number of rows, and the files afterwards are the files before together with the
  paths these calls wrote.
\<close>

theorem receipts_per_order:
  assumes "fst (fill_the_form_and_store_receipts en orders s) = Inr ()"
  shows "\<exists>new. w_trace (snd (fill_the_form_and_store_receipts en orders s)) = w_trace s @ new
      \<and> length (filter is_image_write new) = length orders
      \<and> length (filter is_pdf_write new) = 2 * length orders
      \<and> set (w_files (snd (fill_the_form_and_store_receipts en orders s)))
          = set (w_files s) \<union> set (concat (map written new))"
proof -
  from assms have "fill_the_form_and_store_receipts en orders s
      = (Inr (), snd (fill_the_form_and_store_receipts en orders s))"
    by (metis prod.collapse)
  then have "effects s (snd (fill_the_form_and_store_receipts en orders s))
      (length orders) (2 * length orders)"
    by (rule loop_success)
  then show ?thesis unfolding effects_def .
qed

theorem receipts_per_order_witness:
  "fst (fill_the_form_and_store_receipts one_order_env [example_row] world0) = Inr ()
   \<and> (\<exists>new. w_trace (snd (fill_the_form_and_store_receipts one_order_env [example_row] world0))
            = w_trace world0 @ new
      \<and> length (filter is_image_write new) = length [example_row]
      \<and> length (filter is_pdf_write new) = 2 * length [example_row]
      \<and> set (w_files (snd (fill_the_form_and_store_receipts one_order_env [example_row] world0)))
          = set (w_files world0) \<union> set (concat (map written new)))"
proof -
  have h: "fst (fill_the_form_and_store_receipts one_order_env [example_row] world0) = Inr ()"
    unfolding one_order_loop by simp
  from receipts_per_order [OF h] h show ?thesis by blast
qed

lemma empty_badge_loop:
  "fst (fill_the_form_and_store_receipts empty_badge_env [example_row] world0) = Inr ()"
  by (simp add: run_defs empty_badge_env_def one_order_env_def example_row_def world0_def)

text \<open>One order, submitted with a non-empty badge text, leaves two receipt PDFs and one image:
  the number of PDFs is not the number of submitted rows. And an order whose badge shows no
  text gets its image and its two PDFs all the same.\<close>

theorem one_order_two_pdfs_counterexample:
  "fst (fill_the_form_and_store_receipts one_order_env [example_row] world0) = Inr ()
   \<and> e_text_content one_order_env [] success_badge = Some ''RSB-ROBO-ORDER-1''
   \<and> w_files (snd (fill_the_form_and_store_receipts one_order_env [example_row] world0))
       = [''temp/receipts/receipt_RSB-ROBO-ORDER-1_with_robot_image.pdf'',
          ''temp/receipts/receipt_RSB-ROBO-ORDER-1.pdf'',
          ''temp/receipts_images/robot_RSB-ROBO-ORDER-1.png'']
   \<and> length (filter is_pdf_write
         (w_trace (snd (fill_the_form_and_store_receipts one_order_env [example_row] world0)))) = 2
   \<and> length (filter is_pdf_write
         (w_trace (snd (fill_the_form_and_store_receipts one_order_env [example_row] world0))))
       \<noteq> length [example_row]
   \<and> fst (fill_the_form_and_store_receipts empty_badge_env [example_row] world0) = Inr ()
   \<and> e_text_content empty_badge_env [] success_badge = Some []
   \<and> length (filter is_image_write
         (w_trace (snd (fill_the_form_and_store_receipts empty_badge_env [example_row] world0)))) = 1
   \<and> length (filter is_pdf_write
         (w_trace (snd (fill_the_form_and_store_receipts empty_badge_env [example_row] world0)))) = 2"
proof -
  have a: "fst (fill_the_form_and_store_receipts one_order_env [example_row] world0) = Inr ()
   \<and> e_text_content one_order_env [] success_badge = Some ''RSB-ROBO-ORDER-1''
   \<and> w_files (snd (fill_the_form_and_store_receipts one_order_env [example_row] world0))
       = [''temp/receipts/receipt_RSB-ROBO-ORDER-1_with_robot_image.pdf'',
          ''temp/receipts/receipt_RSB-ROBO-ORDER-1.pdf'',
          ''temp/receipts_images/robot_RSB-ROBO-ORDER-1.png'']
   \<and> length (filter is_pdf_write
         (w_trace (snd (fill_the_form_and_store_receipts one_order_env [example_row] world0)))) = 2
   \<and> length (filter is_pdf_write
         (w_trace (snd (fill_the_form_and_store_receipts one_order_env [example_row] world0))))
       \<noteq> length [example_row]"
    unfolding one_order_loop by (simp add: one_order_env_def)
  have "fill_the_form_and_store_receipts empty_badge_env [example_row] world0
      = (Inr (), snd (fill_the_form_and_store_receipts empty_badge_env [example_row] world0))"
    using empty_badge_loop by (metis prod.collapse)
  then have "effects world0 (snd (fill_the_form_and_store_receipts empty_badge_env [example_row] world0))
      (length [example_row]) (2 * length [example_row])"
    by (rule loop_success)
  then have b: "length (filter is_image_write
         (w_trace (snd (fill_the_form_and_store_receipts empty_badge_env [example_row] world0)))) = 1
   \<and> length (filter is_pdf_write
         (w_trace (snd (fill_the_form_and_store_receipts empty_badge_env [example_row] world0)))) = 2"
    by (auto simp add: effects_def world0_def)
  have c: "e_text_content empty_badge_env [] success_badge = Some []"
    by (simp add: empty_badge_env_def)
  from a b c empty_badge_loop show ?thesis by blast
qed

text \<open>A call of the retry that returns has clicked the submit button first.\<close>

lemma retry_returns_clicked:
  assumes "click_order_button_with_retry en depth row count s = (Inr x, s')"
  shows "\<exists>rest. w_trace s' = w_trace s @ Enter_click_order_button_with_retry row count
                     # Click order_button # rest
          \<and> (\<forall>ev \<in> set rest. is_retry_event ev)"
proof (cases depth)
  case 0
  with assms show ?thesis by (simp add: raise_def)
next
  case (Suc d)
  let ?E = "Enter_click_order_button_with_retry row count"
  let ?s3 = "s\<lparr>w_trace := w_trace s @ [?E, Click order_button, IsVisible danger_alert]\<rparr>"
  show ?thesis
  proof (cases rule: retry_cases [of en d row count s])
    case (raise_click e)
    with assms Suc show ?thesis by simp
  next
    case exceeded
    with assms Suc have "w_trace s' = w_trace s @ ?E # Click order_button # []" by auto
    then show ?thesis by (intro exI [of _ "[]"]) simp
  next
    case (raise_visible e)
    with assms Suc show ?thesis by simp
  next
    case absent
    with assms Suc have "w_trace s' = w_trace s @ ?E # Click order_button # [IsVisible danger_alert]"
      by auto
    then show ?thesis by (intro exI [of _ "[IsVisible danger_alert]"]) (simp add: is_retry_event_def)
  next
    case again
    with assms Suc have "click_order_button_with_retry en d (PInt (count + 1)) 0 ?s3 = (Inr x, s')"
      by simp
    from retry_effectsD [OF this] obtain new where
      t: "w_trace s' = w_trace ?s3 @ new" and r: "\<forall>ev \<in> set new. is_retry_event ev"
      by blast
    from t have "w_trace s' = w_trace s @ ?E # Click order_button # (IsVisible danger_alert # new)"
      by simp
    moreover from r have "\<forall>ev \<in> set (IsVisible danger_alert # new). is_retry_event ev"
      by (simp add: is_retry_event_def)
    ultimately show ?thesis by blast
  qed
qed

lemma form_submits:
  assumes "fill_the_form_for_one_order en row s = (Inr n, s')"
  shows "\<exists>head body legs address rest.
           row_get row ''Head'' = Inr head \<and> row_get row ''Body'' = Inr body
         \<and> row_get row ''Legs'' = Inr legs \<and> row_get row ''Address'' = Inr address
         \<and> w_trace s' = w_trace s @ [SelectOption head_select (py_str head),
                Check (body_radio (py_str body)), Fill legs_input (CStr (py_str legs)),
                Fill address_input address]
              @ (Enter_click_order_button_with_retry (PRow row) 0 # Click order_button # rest)
              @ [TextContent success_badge]
         \<and> (\<forall>ev \<in> set rest. is_retry_event ev)
         \<and> n = e_text_content en (w_trace s @ [SelectOption head_select (py_str head),
                Check (body_radio (py_str body)), Fill legs_input (CStr (py_str legs)),
                Fill address_input address]
              @ (Enter_click_order_button_with_retry (PRow row) 0 # Click order_button # rest))
              success_badge"
  using assms
  unfolding fill_the_form_for_one_order_def page_select_option_def page_check_def page_fill_def
    page_text_content_def
  apply (elim and_then_InrE call_InrE ask_InrE lift_InrE)
  apply (drule retry_returns_clicked)
  apply (elim exE conjE)
  apply simp
  done

text \<open>
  C8. For the row \<^verbatim>\<open>{Head: "2", Body: "3", Legs: "4", Address: "Evergreen 123"}\<close>, a run of
  the form driver that returns has made exactly four calls that fill a field, in this order:
  it selects \<^verbatim>\<open>2\<close> in the head dropdown, checks the radio button \<^verbatim>\<open>id-body-3\<close>, fills
  \<^verbatim>\<open>4\<close> into the legs input and \<^verbatim>\<open>Evergreen 123\<close> into the address input. Then it
  submits: the next call is the click on the order button, followed only by calls of the
  submit retry. Last it reads the success badge, and the value returned is the text the site
  shows in the badge at that moment, after the submission.
\<close>

theorem form_driver_fills_four_fields:
  assumes "fst (fill_the_form_for_one_order en example_row s) = Inr n"
  shows "\<exists>new. w_trace (snd (fill_the_form_for_one_order en example_row s))
           = w_trace s @ [SelectOption ''//select[@id='head']'' ''2'',
                          Check ''//input[@id='id-body-3']'',
                          Fill ''//div[contains(label, 'Legs')]//input'' (CStr ''4''),
                          Fill ''//input[@id='address']'' (CStr ''Evergreen 123'')]
               @ new @ [TextContent success_badge]
       \<and> (\<forall>ev \<in> set new. is_retry_event ev)
       \<and> Click ''//button[@id='order']'' \<in> set new
       \<and> (\<exists>rest. new = Enter_click_order_button_with_retry (PRow example_row) 0
                          # Click ''//button[@id='order']'' # rest)
       \<and> n = e_text_content en
               (w_trace s @ [SelectOption ''//select[@id='head']'' ''2'',
                          Check ''//input[@id='id-body-3']'',
                          Fill ''//div[contains(label, 'Legs')]//input'' (CStr ''4''),
                          Fill ''//input[@id='address']'' (CStr ''Evergreen 123'')] @ new)
               success_badge"
proof -
  from assms have "fill_the_form_for_one_order en example_row s
      = (Inr n, snd (fill_the_form_for_one_order en example_row s))"
    by (metis prod.collapse)
  from form_submits [OF this] obtain rest where
    t: "w_trace (snd (fill_the_form_for_one_order en example_row s))
           = w_trace s @ [SelectOption ''//select[@id='head']'' ''2'',
                          Check ''//input[@id='id-body-3']'',
                          Fill ''//div[contains(label, 'Legs')]//input'' (CStr ''4''),
                          Fill ''//input[@id='address']'' (CStr ''Evergreen 123'')]
               @ (Enter_click_order_button_with_retry (PRow example_row) 0
                    # Click ''//button[@id='order']'' # rest) @ [TextContent success_badge]"
    and r: "\<forall>ev \<in> set rest. is_retry_event ev"
    and n: "n = e_text_content en
               (w_trace s @ [SelectOption ''//select[@id='head']'' ''2'',
                          Check ''//input[@id='id-body-3']'',
                          Fill ''//div[contains(label, 'Legs')]//input'' (CStr ''4''),
                          Fill ''//input[@id='address']'' (CStr ''Evergreen 123'')]
                  @ (Enter_click_order_button_with_retry (PRow example_row) 0
                    # Click ''//button[@id='order']'' # rest)) success_badge"
    by (auto simp add: example_row_def row_get_def py_str_def head_select_def body_radio_def
        legs_input_def address_input_def order_button_def)
  let ?new = "Enter_click_order_button_with_retry (PRow example_row) 0
                    # Click ''//button[@id='order']'' # rest"
  have "\<forall>ev \<in> set ?new. is_retry_event ev"
    using r by (simp add: is_retry_event_def order_button_def)
  moreover have "Click ''//button[@id='order']'' \<in> set ?new" by simp
  ultimately show ?thesis using t n by blast
qed

theorem form_driver_fills_four_fields_witness:
  "fst (fill_the_form_for_one_order one_order_env example_row world0) = Inr (Some ''RSB-ROBO-ORDER-1'')
   \<and> (\<exists>new. w_trace (snd (fill_the_form_for_one_order one_order_env example_row world0))
           = w_trace world0 @ [SelectOption ''//select[@id='head']'' ''2'',
                          Check ''//input[@id='id-body-3']'',
                          Fill ''//div[contains(label, 'Legs')]//input'' (CStr ''4''),
                          Fill ''//input[@id='address']'' (CStr ''Evergreen 123'')]
               @ new @ [TextContent success_badge]
       \<and> (\<forall>ev \<in> set new. is_retry_event ev)
       \<and> Click ''//button[@id='order']'' \<in> set new
       \<and> (\<exists>rest. new = Enter_click_order_button_with_retry (PRow example_row) 0
                          # Click ''//button[@id='order']'' # rest)
       \<and> Some ''RSB-ROBO-ORDER-1'' = e_text_content one_order_env
               (w_trace world0 @ [SelectOption ''//select[@id='head']'' ''2'',
                          Check ''//input[@id='id-body-3']'',
                          Fill ''//div[contains(label, 'Legs')]//input'' (CStr ''4''),
                          Fill ''//input[@id='address']'' (CStr ''Evergreen 123'')] @ new)
               success_badge)"
proof -
  have h: "fst (fill_the_form_for_one_order one_order_env example_row world0)
      = Inr (Some ''RSB-ROBO-ORDER-1'')"
    unfolding one_order_form by simp
  from form_driver_fills_four_fields [OF h] h show ?thesis by blast
qed

subsection \<open>Cleanup and the task\<close>

lemma cleanup_never_raises: "fst (cleanup en s) = Inr ()"
  by (simp add: cleanup_def try_except_def and_then_def path_exists_def rmtree_def call_def
      logging_info_def logging_error_def ret_def Let_def split: option.splits)

lemma cleanup_trace:
  "w_trace (snd (cleanup en s)) = w_trace s @ [PathExists ''temp'']
   \<or> w_trace (snd (cleanup en s)) = w_trace s @ [PathExists ''temp'', Rmtree ''temp'']"
  by (simp add: cleanup_def try_except_def and_then_def path_exists_def rmtree_def call_def
      logging_info_def logging_error_def ret_def Let_def split: option.splits)

lemma cleanup_keeps:
  "set (w_files (snd (cleanup en s))) \<subseteq> set (w_files s)
   \<and> set (w_dirs (snd (cleanup en s))) \<subseteq> set (w_dirs s)
   \<and> w_archives (snd (cleanup en s)) = w_archives s"
  by (auto simp add: cleanup_def try_except_def and_then_def path_exists_def rmtree_def call_def
      logging_info_def logging_error_def ret_def Let_def split: option.splits)

lemma cleanup_logs_error:
  assumes "''temp'' \<in> set (w_dirs s) \<or> ''temp'' \<in> set (w_files s)"
    and "fst (rmtree en ''temp'' (snd (path_exists ''temp'' s))) = Inl e"
  shows "w_log (snd (cleanup en s)) = w_log s @ [LogError (CleanupErrorMsg e)]"
  using assms
  by (auto simp add: cleanup_def try_except_def and_then_def path_exists_def rmtree_def call_def
      logging_info_def logging_error_def ret_def Let_def split: option.splits if_splits)


lemma task_is_try_block_then_cleanup:
  "order_robots_from_RobotSpareBin en s
   = (fst (try_block en s), snd (cleanup en (snd (try_block en s))))"
proof -
  obtain r s1 where t: "try_block en s = (r, s1)" by (cases "try_block en s")
  obtain c s2 where c: "cleanup en s1 = (c, s2)" by (cases "cleanup en s1")
  from cleanup_never_raises [of en s1] c have "c = Inr ()" by simp
  with t c show ?thesis
    by (simp add: order_robots_from_RobotSpareBin_def try_finally_def)
qed

text \<open>The \<^verbatim>\<open>try\<close> block on any site that serves the example row and accepts it at once,
  where no call other than the removal of \<^verbatim>\<open>temp\<close> raises.\<close>

lemma try_block_one_order:
  assumes [simp]: "\<And>h ev. ev \<noteq> Rmtree ''temp'' \<Longrightarrow> e_raises en h ev = None"
    and st: "\<And>h. \<not> (400 \<le> fst (e_http_response en h) \<and> fst (e_http_response en h) < 600)"
    and [simp]: "\<And>h. e_read_csv en (snd (e_http_response en h)) = Inr [example_row]"
    and [simp]: "\<And>h sel. \<not> e_is_visible en h sel"
    and [simp]: "\<And>h sel. e_text_content en h sel = Some ''RSB-ROBO-ORDER-1''"
    and [simp]: "\<And>h sel. e_inner_html en h sel = ''<p>receipt</p>''"
    and [simp]: "e_recursion_limit en = 1000"
  shows "try_block en world0 = (Inr (), one_order_done)"
  using st by (simp add: run_defs example_row_def world0_def one_order_done_def)


lemma http_300_try_block: "try_block http_300_env world0 = (Inr (), one_order_done)"
  by (rule try_block_one_order) (simp_all add: http_300_env_def one_order_env_def)


lemma try_block_http_error:
  assumes "400 \<le> fst (e_http_response en (w_trace s))"
    and "fst (e_http_response en (w_trace s)) < 600"
  shows "\<exists>e. get_orders en s = (Inl e, s\<lparr>w_trace := w_trace s @ [HttpGet CSV_URL]\<rparr>)
           \<and> try_block en s = (Inl e, s\<lparr>w_trace := w_trace s @ [HttpGet CSV_URL]\<rparr>)"
  using assms
  by (simp add: try_block_def get_orders_def requests_get_def raise_for_status_def prog_defs
      Let_def split: option.splits)

text \<open>
  C5 (amended). If the download of the order table is answered with a status from 400 to 599
  (for example 500), the fetch raises and the task fails with that exception. The only calls
  of the run are the download and those of cleanup: no browser call, no form, no directory,
  no file and no archive is made.
\<close>

theorem http_error_stops_before_browser:
  assumes "400 \<le> fst (e_http_response en (w_trace s))"
    and "fst (e_http_response en (w_trace s)) < 600"
  shows "\<exists>e. fst (get_orders en s) = Inl e
       \<and> fst (order_robots_from_RobotSpareBin en s) = Inl e
       \<and> (w_trace (snd (order_robots_from_RobotSpareBin en s))
             = w_trace s @ [HttpGet CSV_URL, PathExists ''temp'']
          \<or> w_trace (snd (order_robots_from_RobotSpareBin en s))
             = w_trace s @ [HttpGet CSV_URL, PathExists ''temp'', Rmtree ''temp''])
       \<and> set (w_files (snd (order_robots_from_RobotSpareBin en s))) \<subseteq> set (w_files s)
       \<and> set (w_dirs (snd (order_robots_from_RobotSpareBin en s))) \<subseteq> set (w_dirs s)
       \<and> w_archives (snd (order_robots_from_RobotSpareBin en s)) = w_archives s"
proof -
  let ?s1 = "s\<lparr>w_trace := w_trace s @ [HttpGet CSV_URL]\<rparr>"
  from try_block_http_error [OF assms] obtain e where
    g: "get_orders en s = (Inl e, ?s1)" and t: "try_block en s = (Inl e, ?s1)"
    by blast
  have r: "order_robots_from_RobotSpareBin en s = (Inl e, snd (cleanup en ?s1))"
    using t by (simp add: task_is_try_block_then_cleanup)
  from cleanup_trace [of en ?s1] cleanup_keeps [of en ?s1] g r show ?thesis
    by auto
qed

theorem http_error_stops_before_browser_witness:
  "400 \<le> fst (e_http_response http_500_env (w_trace world0))
   \<and> fst (e_http_response http_500_env (w_trace world0)) < 600
   \<and> fst (get_orders http_500_env world0) = Inl (HTTPError 500)
   \<and> fst (order_robots_from_RobotSpareBin http_500_env world0) = Inl (HTTPError 500)
   \<and> w_trace (snd (order_robots_from_RobotSpareBin http_500_env world0))
        = [HttpGet CSV_URL, PathExists ''temp'']"
proof -
  have h1: "400 \<le> fst (e_http_response http_500_env (w_trace world0))"
    and h2: "fst (e_http_response http_500_env (w_trace world0)) < 600"
    by (simp_all add: http_500_env_def)
  have g: "fst (get_orders http_500_env world0) = Inl (HTTPError 500)"
    by (simp add: get_orders_def requests_get_def raise_for_status_def prog_defs Let_def
        http_500_env_def one_order_env_def)
  have d: "w_dirs (snd (order_robots_from_RobotSpareBin http_500_env world0)) = []"
    using http_error_stops_before_browser [OF h1 h2] by (auto simp add: world0_def)
  have "w_trace (snd (order_robots_from_RobotSpareBin http_500_env world0))
        = [HttpGet CSV_URL, PathExists ''temp'']"
    by (simp add: task_is_try_block_then_cleanup try_block_def get_orders_def requests_get_def
        raise_for_status_def prog_defs Let_def http_500_env_def one_order_env_def world0_def
        cleanup_def try_except_def path_exists_def)
  with http_error_stops_before_browser [OF h1 h2] h1 h2 g show ?thesis by auto
qed

text \<open>A status that is not 2xx and on which the fetch does not raise: with 300 and the table as
  body the rows are read and the browser is driven.\<close>

theorem http_300_counterexample:
  "fst (e_http_response http_300_env []) = 300
   \<and> fst (get_orders http_300_env world0) = Inr [example_row]
   \<and> fst (order_robots_from_RobotSpareBin http_300_env world0) = Inr ()
   \<and> Goto ORDER_URL \<in> set (w_trace (snd (order_robots_from_RobotSpareBin http_300_env world0)))"
proof -
  have a: "fst (e_http_response http_300_env []) = 300"
    by (simp add: http_300_env_def)
  have b: "fst (get_orders http_300_env world0) = Inr [example_row]"
    by (simp add: get_orders_def requests_get_def raise_for_status_def prog_defs Let_def
        http_300_env_def one_order_env_def)
  have c: "fst (order_robots_from_RobotSpareBin http_300_env world0) = Inr ()"
    by (simp only: task_is_try_block_then_cleanup http_300_try_block fst_conv)
  have d: "Goto ORDER_URL \<in> set (w_trace (snd (order_robots_from_RobotSpareBin http_300_env world0)))"
    using cleanup_trace [of http_300_env one_order_done]
    by (simp only: task_is_try_block_then_cleanup http_300_try_block snd_conv)
       (auto simp add: one_order_done_def)
  from a b c d show ?thesis by blast
qed

text \<open>
  C6. Cleanup runs on every exit path of the task: whatever the \<^verbatim>\<open>try\<close> block does
  (it returns, or the fetch, the form filling or the archiving raises), the task goes on with
  cleanup in the world the \<^verbatim>\<open>try\<close> block left, the last calls of the run are those of
  cleanup, and the outcome of the task is the outcome of the \<^verbatim>\<open>try\<close> block. Cleanup itself
  never raises: an error raised by the removal of \<^verbatim>\<open>temp\<close> is logged as an error.
\<close>

theorem cleanup_runs_on_every_path:
  "fst (cleanup en s) = Inr ()
   \<and> order_robots_from_RobotSpareBin en s0
       = (fst (try_block en s0), snd (cleanup en (snd (try_block en s0))))
   \<and> (w_trace (snd (order_robots_from_RobotSpareBin en s0))
         = w_trace (snd (try_block en s0)) @ [PathExists ''temp'']
      \<or> w_trace (snd (order_robots_from_RobotSpareBin en s0))
         = w_trace (snd (try_block en s0)) @ [PathExists ''temp'', Rmtree ''temp''])
   \<and> ((''temp'' \<in> set (w_dirs s) \<or> ''temp'' \<in> set (w_files s))
        \<and> fst (rmtree en ''temp'' (snd (path_exists ''temp'' s))) = Inl e
       \<longrightarrow> w_log (snd (cleanup en s)) = w_log s @ [LogError (CleanupErrorMsg e)])"
  using cleanup_never_raises [of en s] task_is_try_block_then_cleanup [of en s0]
    cleanup_trace [of en "snd (try_block en s0)"] cleanup_logs_error [of s en e]
  by auto

theorem cleanup_runs_on_every_path_witness:
  "(''temp'' \<in> set (w_dirs stale_world) \<or> ''temp'' \<in> set (w_files stale_world))
   \<and> fst (rmtree http_500_rmtree_fails_env ''temp'' (snd (path_exists ''temp'' stale_world)))
       = Inl (OSError ''PermissionError'')
   \<and> fst (cleanup http_500_rmtree_fails_env stale_world) = Inr ()
   \<and> w_log (snd (cleanup http_500_rmtree_fails_env stale_world))
       = [LogError (CleanupErrorMsg (OSError ''PermissionError''))]
   \<and> fst (order_robots_from_RobotSpareBin http_500_rmtree_fails_env stale_world)
       = Inl (HTTPError 500)
   \<and> w_trace (snd (order_robots_from_RobotSpareBin http_500_rmtree_fails_env stale_world))
       = [HttpGet CSV_URL, PathExists ''temp'', Rmtree ''temp'']"
proof -
  have h1: "''temp'' \<in> set (w_dirs stale_world) \<or> ''temp'' \<in> set (w_files stale_world)"
    by (simp add: stale_world_def world0_def)
  have h2: "fst (rmtree http_500_rmtree_fails_env ''temp'' (snd (path_exists ''temp'' stale_world)))
       = Inl (OSError ''PermissionError'')"
    by (simp add: rmtree_def path_exists_def prog_defs Let_def http_500_rmtree_fails_env_def rmtree_fails_env_def
        one_order_env_def)
  have t: "try_block http_500_rmtree_fails_env stale_world
       = (Inl (HTTPError 500), stale_world\<lparr>w_trace := [HttpGet CSV_URL]\<rparr>)"
    by (simp add: try_block_def get_orders_def requests_get_def raise_for_status_def prog_defs
        Let_def http_500_rmtree_fails_env_def rmtree_fails_env_def one_order_env_def stale_world_def world0_def)
  have c: "w_trace (snd (cleanup http_500_rmtree_fails_env (stale_world\<lparr>w_trace := [HttpGet CSV_URL]\<rparr>)))
       = [HttpGet CSV_URL, PathExists ''temp'', Rmtree ''temp'']"
    by (simp add: cleanup_def try_except_def path_exists_def rmtree_def prog_defs Let_def
        http_500_rmtree_fails_env_def rmtree_fails_env_def one_order_env_def stale_world_def world0_def)
  have l: "w_log stale_world = []" by (simp add: stale_world_def world0_def)
  show ?thesis
    using cleanup_runs_on_every_path [where en = http_500_rmtree_fails_env and s = stale_world
      and ?s0.0 = stale_world and e = "OSError ''PermissionError''"] h1 h2 t c l
    by simp
qed




lemma archive_effects:
  "w_trace (snd (archive_receipts en s))
     = w_trace s @ [ArchiveFolderWithZip ''temp/receipts'' ''output/receipts.zip'' True ''*.pdf'']
   \<and> w_dirs (snd (archive_receipts en s)) = w_dirs s
   \<and> w_files (snd (archive_receipts en s)) = w_files s"
  by (simp add: archive_receipts_def archive_folder_with_zip_def prog_defs Let_def
      split: option.splits)

text \<open>
  C10. The directories \<^verbatim>\<open>temp/receipts\<close> and \<^verbatim>\<open>temp/receipts_images\<close> are made only in the
  loop over the rows. When the downloaded table has no rows, the \<^verbatim>\<open>try\<close> block is the
  download followed at once by \<^verbatim>\<open>archive_receipts\<close>, run on the file system as it was at the
  start: no directory is made, no browser call occurs, and the archive call is made although
  \<^verbatim>\<open>temp/receipts\<close> does not exist.
\<close>

theorem no_rows_archive_without_folder:
  assumes "e_raises en (w_trace s) (HttpGet CSV_URL) = None"
    and "\<not> (400 \<le> fst (e_http_response en (w_trace s)) \<and> fst (e_http_response en (w_trace s)) < 600)"
    and "e_read_csv en (snd (e_http_response en (w_trace s))) = Inr []"
    and "''temp/receipts'' \<notin> set (w_dirs s)"
  shows "try_block en s = archive_receipts en (s\<lparr>w_trace := w_trace s @ [HttpGet CSV_URL]\<rparr>)
       \<and> ''temp/receipts'' \<notin> set (w_dirs (s\<lparr>w_trace := w_trace s @ [HttpGet CSV_URL]\<rparr>))
       \<and> w_trace (snd (try_block en s))
           = w_trace s @ [HttpGet CSV_URL,
                          ArchiveFolderWithZip ''temp/receipts'' ''output/receipts.zip'' True ''*.pdf'']
       \<and> w_dirs (snd (try_block en s)) = w_dirs s
       \<and> w_files (snd (try_block en s)) = w_files s"
proof -
  let ?s1 = "s\<lparr>w_trace := w_trace s @ [HttpGet CSV_URL]\<rparr>"
  have c: "(400 \<le> fst (e_http_response en (w_trace s)) \<and> fst (e_http_response en (w_trace s)) < 600)
      = False"
    using assms(2) by simp
  have t: "try_block en s = archive_receipts en ?s1"
    using assms(1) assms(3)
    by (simp add: try_block_def get_orders_def requests_get_def raise_for_status_def prog_defs Let_def c)
  from archive_effects [of en ?s1] t assms(4) show ?thesis by simp
qed

theorem no_rows_archive_without_folder_witness:
  "e_raises no_orders_env (w_trace world0) (HttpGet CSV_URL) = None
   \<and> \<not> (400 \<le> fst (e_http_response no_orders_env (w_trace world0))
         \<and> fst (e_http_response no_orders_env (w_trace world0)) < 600)
   \<and> e_read_csv no_orders_env (snd (e_http_response no_orders_env (w_trace world0))) = Inr []
   \<and> ''temp/receipts'' \<notin> set (w_dirs world0)
   \<and> w_trace (snd (try_block no_orders_env world0))
       = [HttpGet CSV_URL,
          ArchiveFolderWithZip ''temp/receipts'' ''output/receipts.zip'' True ''*.pdf'']
   \<and> w_dirs (snd (try_block no_orders_env world0)) = []"
proof -
  have h1: "e_raises no_orders_env (w_trace world0) (HttpGet CSV_URL) = None"
    and h2: "\<not> (400 \<le> fst (e_http_response no_orders_env (w_trace world0))
         \<and> fst (e_http_response no_orders_env (w_trace world0)) < 600)"
    and h3: "e_read_csv no_orders_env (snd (e_http_response no_orders_env (w_trace world0))) = Inr []"
    and h4: "''temp/receipts'' \<notin> set (w_dirs world0)"
    by (simp_all add: no_orders_env_def one_order_env_def world0_def)
  note r = no_rows_archive_without_folder [OF h1 h2 h3 h4, THEN conjunct2, THEN conjunct2]
  have w: "w_trace world0 = []" "w_dirs world0 = []" by (simp_all add: world0_def)
  from r h1 h2 h3 h4 show ?thesis unfolding w by simp
qed

subsection \<open>The archive\<close>







end
